theory Spec2Isabelle
  imports Main "HOL-Library.Word" "HOL-Library.AList" "HOL-Library.Monad_Syntax"
begin

section \<open>The machine: integers, blocks and the allocator\<close>

text \<open>
  The shim \<^verbatim>\<open>src/wasm/grapheme_wasm.c\<close> is the WebAssembly build's boundary code.
  On that target \<^verbatim>\<open>int\<close>, \<^verbatim>\<open>size_t\<close> and data pointers are 32 bits wide,
  \<^verbatim>\<open>sizeof(int)\<close> is 4 and \<^verbatim>\<open>sizeof(grapheme_bigint)\<close> is 16. An \<^verbatim>\<open>int\<close> is a
  32-bit word read in two's complement (\<open>sint\<close>); a \<^verbatim>\<open>size_t\<close> is a 32-bit word read
  unsigned (\<open>unat\<close>), and its multiplication wraps around.

  Memory is a collection of disjoint blocks, each named by the address \<^verbatim>\<open>malloc\<close>
  returned for it; address 0 is \<^verbatim>\<open>NULL\<close>. A pointer into a buffer of ints is the address
  of its block, and a slot is addressed by block and index.
\<close>

type_synonym c_int = "32 word"
type_synonym size_t = "32 word"
type_synonym addr = nat

record grapheme_bigint =
  sign :: c_int
  word_count :: c_int
  allocated_words :: c_int
  words :: addr

datatype block = Bigint grapheme_bigint | Buffer "c_int list"

text \<open>
  What \<^verbatim>\<open>malloc\<close> answers is not decided by the shim. Each call consumes one decision of
  the allocator: it denies the request, or grants it and hands out memory whose initial
  contents (slot by slot) are whatever was there before. When no decision is left the
  request is denied.
\<close>

datatype choice = Deny | Grant "nat \<Rightarrow> c_int"

datatype event = Malloc size_t addr | Free addr

record world =
  heap :: "(addr \<times> block) list"
  answers :: "choice list"
  trace :: "event list"

definition fresh :: "(addr \<times> block) list \<Rightarrow> addr" where
  "fresh h = Suc (foldr max (map fst h) 0)"

text \<open>How the bytes of a new block are read after the cast at the call site.\<close>

definition as_bigint :: "nat \<Rightarrow> (nat \<Rightarrow> c_int) \<Rightarrow> block" where
  "as_bigint n junk =
     Bigint \<lparr>sign = junk 0, word_count = junk 1, allocated_words = junk 2,
             words = unat (junk 3)\<rparr>"

definition as_ints :: "nat \<Rightarrow> (nat \<Rightarrow> c_int) \<Rightarrow> block" where
  "as_ints n junk = Buffer (map junk [0..<n div 4])"

definition malloc :: "size_t \<Rightarrow> (nat \<Rightarrow> (nat \<Rightarrow> c_int) \<Rightarrow> block) \<Rightarrow> world \<Rightarrow> addr \<times> world" where
  "malloc sz view s =
     (case answers s of
        Grant junk # rest \<Rightarrow>
          (let a = fresh (heap s)
           in (a, s\<lparr>heap := (a, view (unat sz) junk) # heap s, answers := rest,
                    trace := trace s @ [Malloc sz a]\<rparr>))
      | Deny # rest \<Rightarrow> (0, s\<lparr>answers := rest, trace := trace s @ [Malloc sz 0]\<rparr>)
      | [] \<Rightarrow> (0, s\<lparr>trace := trace s @ [Malloc sz 0]\<rparr>))"

text \<open>The live block an address names, if any. \<^verbatim>\<open>NULL\<close> names none.\<close>

definition block_at :: "world \<Rightarrow> addr \<Rightarrow> block option" where
  "block_at s p = (if p = 0 then None else map_of (heap s) p)"

text \<open>
  \<^verbatim>\<open>free(NULL)\<close> does nothing; \<^verbatim>\<open>free\<close> of an address that names no live block is
  undefined behaviour, the value \<open>None\<close> throughout this model.
\<close>

definition free :: "addr \<Rightarrow> world \<Rightarrow> world option" where
  "free p s =
     (if p = 0 then Some (s\<lparr>trace := trace s @ [Free 0]\<rparr>)
      else case block_at s p of
             None \<Rightarrow> None
           | Some _ \<Rightarrow> Some (s\<lparr>heap := AList.delete p (heap s), trace := trace s @ [Free p]\<rparr>))"

text \<open>Reading and writing through a \<^verbatim>\<open>grapheme_bigint*\<close>.\<close>

definition read_bigint :: "addr \<Rightarrow> world \<Rightarrow> grapheme_bigint option" where
  "read_bigint p s = (case block_at s p of Some (Bigint b) \<Rightarrow> Some b | _ \<Rightarrow> None)"

definition write_bigint :: "addr \<Rightarrow> (grapheme_bigint \<Rightarrow> grapheme_bigint) \<Rightarrow> world \<Rightarrow> world option" where
  "write_bigint p f s =
     (case block_at s p of
        Some (Bigint b) \<Rightarrow> Some (s\<lparr>heap := AList.update p (Bigint (f b)) (heap s)\<rparr>)
      | _ \<Rightarrow> None)"

text \<open>
  Reading and writing slot \<open>i\<close> through an \<^verbatim>\<open>int*\<close>: what the external caller does with
  the reference \<^verbatim>\<open>grapheme_bigint_get_words\<close> returns. Outside the block it is undefined.
\<close>

definition load_int :: "addr \<Rightarrow> nat \<Rightarrow> world \<Rightarrow> c_int option" where
  "load_int w i s =
     (case block_at s w of
        Some (Buffer ws) \<Rightarrow> if i < length ws then Some (ws ! i) else None
      | _ \<Rightarrow> None)"

definition store_int :: "addr \<Rightarrow> nat \<Rightarrow> c_int \<Rightarrow> world \<Rightarrow> world option" where
  "store_int w i v s =
     (case block_at s w of
        Some (Buffer ws) \<Rightarrow>
          if i < length ws then Some (s\<lparr>heap := AList.update w (Buffer (ws[i := v])) (heap s)\<rparr>)
          else None
      | _ \<Rightarrow> None)"

section \<open>The shim\<close>

text \<open>Line 19 of the source: the sentinel -1 stands for \<open>word_count\<close>.\<close>

definition effective_words :: "c_int \<Rightarrow> c_int \<Rightarrow> c_int" where
  "effective_words wc aw = (if aw = - 1 then wc else aw)"

definition grapheme_bigint_external_init ::
    "c_int \<Rightarrow> c_int \<Rightarrow> c_int \<Rightarrow> world \<Rightarrow> (addr \<times> world) option" where
  "grapheme_bigint_external_init sg wc aw s =
     (case malloc 16 as_bigint s of
        (bigint, s1) \<Rightarrow>
          if bigint = 0 then Some (0, s1)
          else do {
            s2 \<leftarrow> write_bigint bigint (\<lambda>b. b\<lparr>sign := sg\<rparr>) s1;
            s3 \<leftarrow> write_bigint bigint (\<lambda>b. b\<lparr>word_count := wc\<rparr>) s2;
            let aw' = effective_words wc aw;
            (w, s4) \<leftarrow> Some (malloc (4 * aw') as_ints s3);
            s5 \<leftarrow> write_bigint bigint (\<lambda>b. b\<lparr>words := w\<rparr>) s4;
            b \<leftarrow> read_bigint bigint s5;
            if words b = 0 then do { s6 \<leftarrow> free bigint s5; Some (0, s6) }
            else Some (bigint, s5)
          })"

definition grapheme_bigint_get_words :: "addr \<Rightarrow> world \<Rightarrow> (addr \<times> world) option" where
  "grapheme_bigint_get_words bigint s = do { b \<leftarrow> read_bigint bigint s; Some (words b, s) }"

definition grapheme_bigint_get_sign :: "addr \<Rightarrow> world \<Rightarrow> (c_int \<times> world) option" where
  "grapheme_bigint_get_sign bigint s = do { b \<leftarrow> read_bigint bigint s; Some (sign b, s) }"

definition grapheme_bigint_get_word_count :: "addr \<Rightarrow> world \<Rightarrow> (c_int \<times> world) option" where
  "grapheme_bigint_get_word_count bigint s =
     do { b \<leftarrow> read_bigint bigint s; Some (word_count b, s) }"

definition grapheme_free_bigint :: "addr \<Rightarrow> world \<Rightarrow> world option" where
  "grapheme_free_bigint bigint s =
     do { b \<leftarrow> read_bigint bigint s; s1 \<leftarrow> free (words b) s; free bigint s1 }"

section \<open>Callers and their runs\<close>

text \<open>
  The external caller sees five entry points and, through the reference that
  \<^verbatim>\<open>grapheme_bigint_get_words\<close> hands out, the slots of a word buffer. A run is any
  sequence of such calls; it is cut short (\<open>None\<close>) by the first call whose behaviour is
  undefined. The arguments of a call are plain numbers: nothing stops a caller from passing
  any address it likes.
\<close>

datatype call =
    Create c_int c_int c_int
  | Get_words addr
  | Get_sign addr
  | Get_word_count addr
  | Destroy addr
  | Store addr nat c_int
  | Load addr nat

fun exec :: "call \<Rightarrow> world \<Rightarrow> world option" where
  "exec (Create sg wc aw) s = map_option snd (grapheme_bigint_external_init sg wc aw s)"
| "exec (Get_words p) s = map_option snd (grapheme_bigint_get_words p s)"
| "exec (Get_sign p) s = map_option snd (grapheme_bigint_get_sign p s)"
| "exec (Get_word_count p) s = map_option snd (grapheme_bigint_get_word_count p s)"
| "exec (Destroy p) s = grapheme_free_bigint p s"
| "exec (Store w i v) s = store_int w i v s"
| "exec (Load w i) s = map_option (\<lambda>_. s) (load_int w i s)"

fun run :: "call list \<Rightarrow> world \<Rightarrow> world option" where
  "run [] s = Some s"
| "run (c # cs) s = (case exec c s of None \<Rightarrow> None | Some s' \<Rightarrow> run cs s')"

text \<open>The world before the first call: nothing allocated, nothing logged.\<close>

definition boot :: "choice list \<Rightarrow> world" where
  "boot cs = \<lparr>heap = [], answers = cs, trace = []\<rparr>"

text \<open>Whether the allocator grants the next request.\<close>

definition granted :: "choice list \<Rightarrow> bool" where
  "granted cs = (case cs of Grant _ # _ \<Rightarrow> True | _ \<Rightarrow> False)"

text \<open>
  A live handle: the address of a live handle record whose \<open>words\<close> field is the
  address of a live buffer of ints.
\<close>

definition live_handle :: "world \<Rightarrow> addr \<Rightarrow> bool" where
  "live_handle s p =
     (case read_bigint p s of
        None \<Rightarrow> False
      | Some b \<Rightarrow>
          (case block_at s (words b) of Some (Buffer _) \<Rightarrow> True | _ \<Rightarrow> False))"

text \<open>The number of slots of the buffer a handle owns (0 where there is none).\<close>

definition capacity :: "world \<Rightarrow> addr \<Rightarrow> nat" where
  "capacity s p =
     (case read_bigint p s of
        None \<Rightarrow> 0
      | Some b \<Rightarrow> (case block_at s (words b) of Some (Buffer ws) \<Rightarrow> length ws | _ \<Rightarrow> 0))"

text \<open>
  The invariant of the specification's data model, in its words: the
  \<open>allocated_words\<close> field of the record is non-negative, at least \<open>word_count\<close>, and
  the length of the buffer.
\<close>

definition data_model_invariant :: "world \<Rightarrow> addr \<Rightarrow> bool" where
  "data_model_invariant s p =
     (case read_bigint p s of
        None \<Rightarrow> False
      | Some b \<Rightarrow>
          live_handle s p \<and>
          0 \<le> sint (allocated_words b) \<and>
          sint (word_count b) \<le> sint (allocated_words b) \<and>
          int (capacity s p) = sint (allocated_words b))"

text \<open>
  What every world reached by calls from \<open>boot\<close> satisfies: every handle record
  points to a buffer of ints, and no two records share one.
\<close>

definition tidy :: "world \<Rightarrow> bool" where
  "tidy s \<longleftrightarrow>
     (\<forall>a b. block_at s a = Some (Bigint b) \<longrightarrow>
        (\<exists>ws. block_at s (words b) = Some (Buffer ws))) \<and>
     (\<forall>a a' b b'. block_at s a = Some (Bigint b) \<longrightarrow>
        block_at s a' = Some (Bigint b') \<longrightarrow> words b = words b' \<longrightarrow> a = a')"

text \<open>A handle record \<open>b\<close> at \<open>p\<close> that owns a buffer of \<open>n\<close> slots.\<close>

definition holds :: "addr \<Rightarrow> grapheme_bigint \<Rightarrow> nat \<Rightarrow> world \<Rightarrow> bool" where
  "holds p b n s \<longleftrightarrow>
     block_at s p = Some (Bigint b) \<and>
     (\<exists>ws. block_at s (words b) = Some (Buffer ws) \<and> length ws = n)"

text \<open>Sample data: memory that still holds 100, 101, 102, ... from an earlier life.\<close>

definition stale :: "nat \<Rightarrow> c_int" where
  "stale i = 100 + of_nat i"

definition two_grants :: world where
  "two_grants = boot [Grant stale, Grant stale]"

definition one_grant :: world where
  "one_grant = boot [Grant stale, Deny]"

text \<open>
  The world after \<^verbatim>\<open>grapheme_bigint_external_init(1, 2, 4)\<close> in \<open>two_grants\<close>, and the
  same after the caller has written 7, 3, 0, 0 into the four slots.
\<close>

definition filled :: world where
  "filled =
     \<lparr>heap = [(2, Buffer [100, 101, 102, 103]),
              (1, Bigint \<lparr>sign = 1, word_count = 2, allocated_words = 102, words = 2\<rparr>)],
      answers = [], trace = [Malloc 16 1, Malloc 16 2]\<rparr>"

definition written :: world where
  "written =
     \<lparr>heap = [(2, Buffer [7, 3, 0, 0]),
              (1, Bigint \<lparr>sign = 1, word_count = 2, allocated_words = 102, words = 2\<rparr>)],
      answers = [], trace = [Malloc 16 1, Malloc 16 2]\<rparr>"

text \<open>
  The world after a call in \<open>two_grants\<close> with sign 1 whose buffer request came to four
  bytes.
\<close>

definition one_slot :: "c_int \<Rightarrow> world" where
  "one_slot wc =
     \<lparr>heap = [(2, Buffer [100]),
              (1, Bigint \<lparr>sign = 1, word_count = wc, allocated_words = 102, words = 2\<rparr>)],
      answers = [], trace = [Malloc 16 1, Malloc 4 2]\<rparr>"

section \<open>Facts about the allocator and the heap\<close>

text \<open>A fresh address is above every address in use, so it names no block, and is not 0.\<close>

lemma foldr_max_ge: "a \<in> set xs \<Longrightarrow> a \<le> foldr max xs (0::nat)"
  by (induction xs) auto

lemma fresh_gt: "a \<in> fst ` set h \<Longrightarrow> a < fresh h"
  unfolding fresh_def using foldr_max_ge [of a "map fst h"] by auto

lemma fresh_nonzero [simp]: "fresh h \<noteq> 0" "0 < fresh h"
  by (simp_all add: fresh_def)

lemma fresh_notin [simp]: "fresh h \<notin> fst ` set h"
  using fresh_gt by blast

lemma map_of_fresh [simp]: "map_of h (fresh h) = None"
  by (simp add: map_of_eq_None_iff)

lemma fresh_Cons_fresh [simp]: "fresh ((fresh h, x) # h) = Suc (fresh h)"
  by (simp add: fresh_def)

lemma Suc_fresh_notin [simp]: "Suc (fresh h) \<notin> fst ` set h"
  using fresh_gt [of "Suc (fresh h)" h] by auto

lemma map_of_Suc_fresh [simp]: "map_of h (Suc (fresh h)) = None"
  by (simp add: map_of_eq_None_iff)

text \<open>
  The three ways through \<^verbatim>\<open>grapheme_bigint_external_init\<close>: both requests granted, the
  buffer denied, the handle record denied. In each the result and the new world are
  written out; in none is the behaviour undefined.
\<close>

lemmas shim_defs = grapheme_bigint_external_init_def malloc_def write_bigint_def read_bigint_def
      as_bigint_def as_ints_def Let_def free_def block_at_def

lemma create_both:
  assumes "answers s = Grant j1 # Grant j2 # rest"
  shows "grapheme_bigint_external_init sg wc aw s =
    Some (fresh (heap s),
          s\<lparr>heap := (Suc (fresh (heap s)), Buffer (map j2 [0..<unat (4 * effective_words wc aw) div 4]))
                    # (fresh (heap s), Bigint \<lparr>sign = sg, word_count = wc, allocated_words = j1 2,
                                               words = Suc (fresh (heap s))\<rparr>) # heap s,
            answers := rest,
            trace := trace s @ [Malloc 16 (fresh (heap s)),
                                Malloc (4 * effective_words wc aw) (Suc (fresh (heap s)))]\<rparr>)"
  using assms by (simp add: shim_defs)

lemma create_no_buffer:
  assumes "answers s = Grant j1 # rest" and "\<not> granted rest"
  shows "grapheme_bigint_external_init sg wc aw s =
    Some (0, s\<lparr>answers := tl rest,
               trace := trace s @ [Malloc 16 (fresh (heap s)),
                                   Malloc (4 * effective_words wc aw) 0,
                                   Free (fresh (heap s))]\<rparr>)"
  using assms
  by (auto simp add: shim_defs granted_def split: list.splits choice.splits)

lemma create_no_handle:
  assumes "\<not> granted (answers s)"
  shows "grapheme_bigint_external_init sg wc aw s =
    Some (0, s\<lparr>answers := tl (answers s), trace := trace s @ [Malloc 16 0]\<rparr>)"
  using assms
  by (auto simp add: shim_defs granted_def split: list.splits choice.splits)

lemma granted_iff: "granted cs \<longleftrightarrow> (\<exists>j rest. cs = Grant j # rest)"
  by (auto simp: granted_def split: list.splits choice.splits)

lemma granted_twice_iff:
  "granted cs \<and> granted (tl cs) \<longleftrightarrow> (\<exists>j1 j2 rest. cs = Grant j1 # Grant j2 # rest)"
  by (auto simp: granted_iff)

lemma answers_cases:
  obtains (both) j1 j2 rest where "answers s = Grant j1 # Grant j2 # rest"
  | (no_buffer) j1 rest where "answers s = Grant j1 # rest" "\<not> granted rest"
  | (no_handle) "\<not> granted (answers s)"
  by (cases "answers s" rule: list.exhaust; simp add: granted_iff) (metis choice.exhaust granted_iff)

lemma create_heap_cases:
  assumes "grapheme_bigint_external_init sg wc aw s = Some (p, s')"
  shows "(p = 0 \<and> heap s' = heap s) \<or>
         (\<exists>ws old. p = fresh (heap s) \<and>
            length ws = unat (4 * effective_words wc aw) div 4 \<and>
            heap s' = (Suc p, Buffer ws)
                      # (p, Bigint \<lparr>sign = sg, word_count = wc, allocated_words = old,
                                     words = Suc p\<rparr>) # heap s)"
proof (cases s rule: answers_cases)
  case both
  from create_both [OF both, of sg wc aw] assms show ?thesis by auto
next
  case no_buffer
  from create_no_buffer [OF no_buffer, of sg wc aw] assms show ?thesis by auto
next
  case no_handle
  from create_no_handle [OF no_handle, of sg wc aw] assms show ?thesis by auto
qed

lemma create_defined: "\<exists>p s'. grapheme_bigint_external_init sg wc aw s = Some (p, s')"
proof (cases s rule: answers_cases)
  case both
  from create_both [OF both, of sg wc aw] show ?thesis by blast
next
  case no_buffer
  from create_no_buffer [OF no_buffer, of sg wc aw] show ?thesis by blast
next
  case no_handle
  from create_no_handle [OF no_handle, of sg wc aw] show ?thesis by blast
qed

lemma create_null_iff:
  assumes "grapheme_bigint_external_init sg wc aw s = Some (p, s')"
  shows "p \<noteq> 0 \<longleftrightarrow> granted (answers s) \<and> granted (tl (answers s))"
proof (cases s rule: answers_cases)
  case both
  from create_both [OF both, of sg wc aw] assms both show ?thesis by (auto simp: granted_def)
next
  case no_buffer
  from create_no_buffer [OF no_buffer, of sg wc aw] assms no_buffer show ?thesis by auto
next
  case no_handle
  from create_no_handle [OF no_handle, of sg wc aw] assms no_handle show ?thesis by auto
qed

lemma map_of_dom_lt_fresh: "map_of h a = Some x \<Longrightarrow> a < fresh h"
  using fresh_gt [of a h] by (force dest: map_of_SomeD)

lemma read_bigint_iff: "read_bigint p s = Some b \<longleftrightarrow> block_at s p = Some (Bigint b)"
  by (auto simp: read_bigint_def split: option.splits block.splits)

lemma block_at_null [simp]: "block_at s 0 = None"
  by (simp add: block_at_def)

text \<open>Every call keeps the heap tidy, so every world reached from \<open>boot\<close> is.\<close>

lemma tidy_boot: "tidy (boot cs)"
  by (simp add: tidy_def boot_def block_at_def)

lemma destroy_live:
  assumes "block_at s p = Some (Bigint b)" and "block_at s (words b) = Some (Buffer ws)"
  shows "grapheme_free_bigint p s =
           Some (s\<lparr>heap := AList.delete p (AList.delete (words b) (heap s)),
                   trace := trace s @ [Free (words b), Free p]\<rparr>)"
proof -
  from assms have "p \<noteq> words b" "p \<noteq> 0" "words b \<noteq> 0" by (auto simp: block_at_def split: if_splits)
  then show ?thesis using assms
    by (simp add: grapheme_free_bigint_def read_bigint_def free_def block_at_def)
qed

lemma block_at_after_destroy:
  "block_at (s\<lparr>heap := AList.delete p (AList.delete w (heap s)), trace := t\<rparr>) x =
     (if x = p \<or> x = w then None else block_at s x)"
  by (simp add: block_at_def delete_conv)

lemma destroy_tidy:
  assumes "tidy s" and "grapheme_free_bigint p s = Some s'"
  shows "tidy s'"
proof -
  from assms(2) obtain b where b: "block_at s p = Some (Bigint b)"
    by (auto simp: grapheme_free_bigint_def read_bigint_iff split: Option.bind_splits)
  with assms(1) obtain ws where ws: "block_at s (words b) = Some (Buffer ws)"
    unfolding tidy_def by blast
  from destroy_live [OF b ws] assms(2)
  have s': "s' = s\<lparr>heap := AList.delete p (AList.delete (words b) (heap s)),
                  trace := trace s @ [Free (words b), Free p]\<rparr>" by simp
  have look: "\<And>x. block_at s' x = (if x = p \<or> x = words b then None else block_at s x)"
    unfolding s' by (rule block_at_after_destroy)
  show ?thesis
    unfolding tidy_def
  proof (intro conjI allI impI)
    fix a c assume a: "block_at s' a = Some (Bigint c)"
    then have a': "block_at s a = Some (Bigint c)" "a \<noteq> p" by (auto simp: look split: if_splits)
    with assms(1) obtain vs where vs: "block_at s (words c) = Some (Buffer vs)"
      unfolding tidy_def by blast
    from a' b assms(1) have "words c \<noteq> words b" unfolding tidy_def by blast
    moreover from vs b have "words c \<noteq> p" by auto
    ultimately show "\<exists>ws. block_at s' (words c) = Some (Buffer ws)"
      using vs by (simp add: look)
  next
    fix a a' c c'
    assume "block_at s' a = Some (Bigint c)" "block_at s' a' = Some (Bigint c')" "words c = words c'"
    then have "block_at s a = Some (Bigint c)" "block_at s a' = Some (Bigint c')" "words c = words c'"
      by (auto simp: look split: if_splits)
    with assms(1) show "a = a'" unfolding tidy_def by blast
  qed
qed

lemma block_at_nonnull: "block_at s w = Some x \<Longrightarrow> 0 < w"
  by (cases "w = 0") (simp_all add: block_at_def)

lemma block_at_lt_fresh: "block_at s a = Some x \<Longrightarrow> a < fresh (heap s)"
  by (auto simp: block_at_def dest: map_of_dom_lt_fresh split: if_splits)

lemma block_at_after_create:
  assumes "heap s' = (Suc (fresh (heap s)), B) # (fresh (heap s), A) # heap s"
  shows "block_at s' x =
           (if x = Suc (fresh (heap s)) then Some B
            else if x = fresh (heap s) then Some A else block_at s x)"
  using assms by (simp add: block_at_def)

lemma create_tidy:
  assumes "tidy s" and "grapheme_bigint_external_init sg wc aw s = Some (p, s')"
  shows "tidy s'"
proof -
  from create_heap_cases [OF assms(2)]
  consider "heap s' = heap s"
    | ws old where "p = fresh (heap s)"
        "heap s' = (Suc p, Buffer ws) # (p, Bigint \<lparr>sign = sg, word_count = wc,
                      allocated_words = old, words = Suc p\<rparr>) # heap s"
    by blast
  then show ?thesis
  proof cases
    case 1
    then have "\<And>x. block_at s' x = block_at s x" by (simp add: block_at_def)
    with assms(1) show ?thesis by (simp add: tidy_def)
  next
    case 2
    let ?a = "fresh (heap s)"
    let ?A = "Bigint \<lparr>sign = sg, word_count = wc, allocated_words = old, words = Suc ?a\<rparr>"
    from 2 have look: "\<And>x. block_at s' x =
           (if x = Suc ?a then Some (Buffer ws) else if x = ?a then Some ?A else block_at s x)"
      by (intro block_at_after_create) simp
    have old_lt: "\<And>x y. block_at s x = Some y \<Longrightarrow> x < ?a" by (rule block_at_lt_fresh)
    show ?thesis
      unfolding tidy_def
    proof (intro conjI allI impI)
      fix a c assume a: "block_at s' a = Some (Bigint c)"
      show "\<exists>vs. block_at s' (words c) = Some (Buffer vs)"
      proof (cases "a = ?a")
        case True
        with a have "words c = Suc ?a" by (auto simp: look)
        then show ?thesis by (simp add: look)
      next
        case False
        with a have c: "block_at s a = Some (Bigint c)" by (auto simp: look split: if_splits)
        with assms(1) obtain vs where vs: "block_at s (words c) = Some (Buffer vs)"
          unfolding tidy_def by blast
        from old_lt [OF vs] have "words c \<noteq> ?a" "words c \<noteq> Suc ?a" by auto
        with vs show ?thesis by (simp add: look)
      qed
    next
      fix a a' c c'
      assume h: "block_at s' a = Some (Bigint c)" "block_at s' a' = Some (Bigint c')"
        "words c = words c'"
      have old_words: "words d \<noteq> Suc ?a" if "block_at s x = Some (Bigint d)" for x d
      proof -
        from that assms(1) obtain vs where "block_at s (words d) = Some (Buffer vs)"
          unfolding tidy_def by blast
        from old_lt [OF this] show ?thesis by auto
      qed
      show "a = a'"
      proof (cases "a = ?a"; cases "a' = ?a")
        assume "a = ?a" "a' = ?a" then show ?thesis by simp
      next
        assume "a = ?a" "a' \<noteq> ?a"
        with h have "words c = Suc ?a" "block_at s a' = Some (Bigint c')"
          by (auto simp: look split: if_splits)
        with old_words h(3) show ?thesis by metis
      next
        assume "a \<noteq> ?a" "a' = ?a"
        with h have "words c' = Suc ?a" "block_at s a = Some (Bigint c)"
          by (auto simp: look split: if_splits)
        with old_words h(3) show ?thesis by metis
      next
        assume "a \<noteq> ?a" "a' \<noteq> ?a"
        with h have "block_at s a = Some (Bigint c)" "block_at s a' = Some (Bigint c')"
          by (auto simp: look split: if_splits)
        with assms(1) h(3) show ?thesis unfolding tidy_def by blast
      qed
    qed
  qed
qed

lemma block_at_after_store:
  "block_at (s\<lparr>heap := AList.update w B (heap s)\<rparr>) x =
     (if x = 0 then None else if x = w then Some B else block_at s x)"
  by (simp add: block_at_def update_conv')

lemma store_int_Some:
  assumes "store_int w i v s = Some s'"
  obtains ws where "block_at s w = Some (Buffer ws)" "i < length ws"
    "s' = s\<lparr>heap := AList.update w (Buffer (ws[i := v])) (heap s)\<rparr>"
  using assms by (auto simp: store_int_def split: option.splits block.splits if_splits)

lemma store_tidy:
  assumes "tidy s" and "store_int w i v s = Some s'"
  shows "tidy s'"
proof -
  from assms(2) obtain ws where ws: "block_at s w = Some (Buffer ws)"
    and s': "s' = s\<lparr>heap := AList.update w (Buffer (ws[i := v])) (heap s)\<rparr>"
    by (rule store_int_Some)
  from ws have "w \<noteq> 0" using block_at_nonnull by blast
  then have look: "\<And>x. block_at s' x = (if x = w then Some (Buffer (ws[i := v])) else block_at s x)"
    unfolding s' by (auto simp: block_at_after_store)
  have big: "block_at s' a = Some (Bigint c) \<longleftrightarrow> block_at s a = Some (Bigint c)" for a c
    using ws by (auto simp: look)
  have buf: "(\<exists>vs. block_at s' x = Some (Buffer vs)) \<longleftrightarrow> (\<exists>vs. block_at s x = Some (Buffer vs))" for x
    using ws by (auto simp: look)
  from assms(1) show ?thesis
    unfolding tidy_def big buf .
qed

lemma exec_tidy: "tidy s \<Longrightarrow> exec c s = Some s' \<Longrightarrow> tidy s'"
proof (cases c)
  case (Create sg wc aw)
  assume "tidy s" "exec c s = Some s'"
  with Create show ?thesis by (auto dest: create_tidy)
next
  case (Destroy p)
  assume "tidy s" "exec c s = Some s'"
  with Destroy show ?thesis by (auto dest: destroy_tidy)
next
  case (Store w i v)
  assume "tidy s" "exec c s = Some s'"
  with Store show ?thesis by (auto dest: store_tidy)
qed (auto simp: grapheme_bigint_get_words_def grapheme_bigint_get_sign_def
      grapheme_bigint_get_word_count_def split: Option.bind_splits)

lemma run_tidy: "tidy s \<Longrightarrow> run cs s = Some s' \<Longrightarrow> tidy s'"
  by (induction cs arbitrary: s) (auto split: option.splits dest: exec_tidy)

section \<open>What a run leaves untouched\<close>

text \<open>
  In a tidy world no call other than the destruction of \<open>p\<close> itself changes the handle
  record at \<open>p\<close> or the length of the buffer it owns: a creation only adds blocks at
  fresh addresses, the destruction of another handle frees that handle's own two blocks,
  and a write into a buffer changes the contents of a slot.
\<close>

lemma create_holds:
  assumes "holds p b n s" and "grapheme_bigint_external_init sg wc aw s = Some (q, s')"
  shows "holds p b n s'"
proof -
  from assms(1) obtain ws where p: "block_at s p = Some (Bigint b)"
    and w: "block_at s (words b) = Some (Buffer ws)" "length ws = n"
    unfolding holds_def by blast
  have same: "block_at s' x = block_at s x" if "block_at s x = Some y" for x y
  proof -
    from block_at_lt_fresh [OF that] have "x \<noteq> fresh (heap s)" "x \<noteq> Suc (fresh (heap s))"
      by auto
    with create_heap_cases [OF assms(2)] show ?thesis
      by (auto simp: block_at_def)
  qed
  from same [OF p] same [OF w(1)] p w show ?thesis
    unfolding holds_def by simp
qed

lemma destroy_holds:
  assumes "tidy s" and "holds p b n s" and "grapheme_free_bigint q s = Some s'" and "q \<noteq> p"
  shows "holds p b n s'"
proof -
  from assms(2) obtain ws where p: "block_at s p = Some (Bigint b)"
    and w: "block_at s (words b) = Some (Buffer ws)" "length ws = n"
    unfolding holds_def by blast
  from assms(3) obtain c where c: "block_at s q = Some (Bigint c)"
    by (auto simp: grapheme_free_bigint_def read_bigint_iff split: Option.bind_splits)
  with assms(1) obtain vs where vs: "block_at s (words c) = Some (Buffer vs)"
    unfolding tidy_def by blast
  from destroy_live [OF c vs] assms(3)
  have s': "s' = s\<lparr>heap := AList.delete q (AList.delete (words c) (heap s)),
                  trace := trace s @ [Free (words c), Free q]\<rparr>" by simp
  have look: "\<And>x. block_at s' x = (if x = q \<or> x = words c then None else block_at s x)"
    unfolding s' by (rule block_at_after_destroy)
  from p vs have "p \<noteq> words c" by auto
  moreover from w c have "words b \<noteq> q" by auto
  moreover from assms(1) p c \<open>q \<noteq> p\<close> have "words b \<noteq> words c"
    unfolding tidy_def by blast
  ultimately show ?thesis
    using p w \<open>q \<noteq> p\<close> unfolding holds_def by (simp add: look)
qed

lemma store_holds:
  assumes "holds p b n s" and "store_int w i v s = Some s'"
  shows "holds p b n s'"
proof -
  from assms(1) obtain ws where p: "block_at s p = Some (Bigint b)"
    and w: "block_at s (words b) = Some (Buffer ws)" "length ws = n"
    unfolding holds_def by blast
  from assms(2) obtain vs where vs: "block_at s w = Some (Buffer vs)"
    and s': "s' = s\<lparr>heap := AList.update w (Buffer (vs[i := v])) (heap s)\<rparr>"
    by (rule store_int_Some)
  from vs have "w \<noteq> 0" using block_at_nonnull by blast
  then have look: "\<And>x. block_at s' x = (if x = w then Some (Buffer (vs[i := v])) else block_at s x)"
    unfolding s' by (auto simp: block_at_after_store)
  from p vs have "p \<noteq> w" by auto
  with p w vs show ?thesis
    unfolding holds_def by (auto simp: look)
qed

lemma exec_holds:
  assumes "tidy s" and "holds p b n s" and "exec c s = Some s'" and "c \<noteq> Destroy p"
  shows "holds p b n s'"
proof (cases c)
  case (Create sg wc aw)
  with assms show ?thesis by (auto dest: create_holds)
next
  case (Destroy q)
  with assms show ?thesis by (auto dest: destroy_holds)
next
  case (Store w i v)
  with assms show ?thesis by (auto dest: store_holds)
qed (use assms in \<open>auto simp: grapheme_bigint_get_words_def grapheme_bigint_get_sign_def
      grapheme_bigint_get_word_count_def split: Option.bind_splits\<close>)

lemma run_holds:
  "tidy s \<Longrightarrow> holds p b n s \<Longrightarrow> run cs s = Some s' \<Longrightarrow> Destroy p \<notin> set cs \<Longrightarrow> holds p b n s'"
proof (induction cs arbitrary: s)
  case Nil
  then show ?case by simp
next
  case (Cons c cs)
  from Cons.prems(3) obtain s1 where s1: "exec c s = Some s1" "run cs s1 = Some s'"
    by (auto split: option.splits)
  from Cons.prems(4) have "c \<noteq> Destroy p" "Destroy p \<notin> set cs" by auto
  with Cons.IH [of s1] exec_tidy [OF Cons.prems(1) s1(1)]
    exec_holds [OF Cons.prems(1,2) s1(1)] s1(2)
  show ?case by blast
qed

lemma create_establishes_holds:
  assumes "grapheme_bigint_external_init sg wc aw s = Some (p, s')" and "p \<noteq> 0"
  shows "\<exists>old. holds p \<lparr>sign = sg, word_count = wc, allocated_words = old, words = Suc p\<rparr>
           (unat (4 * effective_words wc aw) div 4) s'"
  using create_heap_cases [OF assms(1)] assms(2)
  by (auto simp: holds_def block_at_def)

section \<open>Sizes in bytes\<close>

text \<open>
  \<^verbatim>\<open>sizeof(int) * n\<close> is computed in \<^verbatim>\<open>size_t\<close>. For \<open>0 \<le> n < 2^30\<close> the product
  does not wrap and the block has \<open>n\<close> slots.
\<close>

lemma uint_of_small:
  fixes c :: c_int
  assumes "0 \<le> sint c" and "sint c < 2 ^ 30"
  shows "uint c = sint c"
proof -
  have "sint c < 2 ^ 32" using assms(2) by (rule less_trans) simp
  with assms(1) have "take_bit 32 (sint c) = sint c"
    by (rule take_bit_int_eq_self)
  then show ?thesis by (simp add: uint_sint)
qed

lemma unat_byte_size:
  fixes c :: c_int
  assumes "0 \<le> sint c" and "sint c < 2 ^ 30"
  shows "unat (4 * c) div 4 = nat (sint c)"
proof -
  have su: "uint c = sint c" using assms by (rule uint_of_small)
  have lt: "uint c < 2 ^ 30" using assms(2) su by simp
  have u4: "uint (4 :: c_int) = 4" by simp
  have "uint (4 :: c_int) * uint c < 2 ^ LENGTH(32)"
    unfolding u4 using lt by simp
  then have "uint (4 * c) = uint (4 :: c_int) * uint c"
    by (simp only: uint_mult_lem)
  then have "uint (4 * c) = 4 * uint c" unfolding u4 .
  then have "unat (4 * c) = nat (4 * uint c)" by (simp only: unat_eq_nat_uint)
  also have "\<dots> = 4 * nat (uint c)" by (simp add: nat_mult_distrib)
  finally have "unat (4 * c) div 4 = nat (uint c)" by simp
  then show ?thesis unfolding su .
qed

section \<open>More facts about handles\<close>

lemma holds_live:
  assumes "holds p b n s"
  shows "read_bigint p s = Some b" "live_handle s p" "capacity s p = n"
  using assms by (auto simp: holds_def live_handle_def capacity_def read_bigint_def)

lemma live_handle_iff:
  "live_handle s p \<longleftrightarrow>
     (\<exists>b ws. block_at s p = Some (Bigint b) \<and> block_at s (words b) = Some (Buffer ws))"
  by (auto simp: live_handle_def read_bigint_def split: option.splits block.splits)

text \<open>Allocation accounting: a creation followed by the destruction leaves the heap as it was.\<close>

lemma create_then_destroy_restores_heap:
  assumes "grapheme_bigint_external_init sg wc aw s = Some (p, s1)" and "p \<noteq> 0"
  shows "\<exists>s2. grapheme_free_bigint p s1 = Some s2 \<and> heap s2 = heap s \<and>
           trace s2 = trace s1 @ [Free (Suc p), Free p]"
proof -
  from create_heap_cases [OF assms(1)] assms(2) obtain ws old where
    p: "p = fresh (heap s)"
    and h: "heap s1 = (Suc p, Buffer ws)
              # (p, Bigint \<lparr>sign = sg, word_count = wc, allocated_words = old,
                             words = Suc p\<rparr>) # heap s"
    by blast
  let ?b = "\<lparr>sign = sg, word_count = wc, allocated_words = old, words = Suc p\<rparr>"
  from h assms(2) have "block_at s1 p = Some (Bigint ?b)" "block_at s1 (words ?b) = Some (Buffer ws)"
    by (simp_all add: block_at_def)
  from destroy_live [OF this] h p show ?thesis by simp
qed

lemma holds_after_run:
  assumes "run pre (boot cs) = Some s"
    and "grapheme_bigint_external_init sg wc aw s = Some (p, s1)" and "p \<noteq> 0"
    and "run post s1 = Some s2" and "Destroy p \<notin> set post"
  shows "\<exists>b. sign b = sg \<and> word_count b = wc \<and> words b = Suc p \<and>
           holds p b (unat (4 * effective_words wc aw) div 4) s1 \<and>
           holds p b (unat (4 * effective_words wc aw) div 4) s2"
proof -
  from run_tidy [OF tidy_boot assms(1)] have "tidy s" .
  from create_tidy [OF this assms(2)] have t1: "tidy s1" .
  from create_establishes_holds [OF assms(2,3)] obtain old where
    h: "holds p \<lparr>sign = sg, word_count = wc, allocated_words = old, words = Suc p\<rparr>
       (unat (4 * effective_words wc aw) div 4) s1" by blast
  from run_holds [OF t1 h assms(4,5)] h show ?thesis
    by (intro exI [of _ "\<lparr>sign = sg, word_count = wc, allocated_words = old, words = Suc p\<rparr>"])
      simp
qed

lemma store_then_load:
  assumes "block_at s w = Some (Buffer ws)"
  shows "i < length ws \<Longrightarrow> \<exists>s'. store_int w i v s = Some s' \<and> load_int w i s' = Some v"
    and "length ws \<le> i \<Longrightarrow> store_int w i v s = None"
    and "length ws \<le> i \<Longrightarrow> load_int w i s = None"
proof -
  from assms have "w \<noteq> 0" using block_at_nonnull by blast
  then show "i < length ws \<Longrightarrow> \<exists>s'. store_int w i v s = Some s' \<and> load_int w i s' = Some v"
    using assms by (simp add: store_int_def load_int_def block_at_after_store)
  show "length ws \<le> i \<Longrightarrow> store_int w i v s = None"
    using assms by (simp add: store_int_def)
  show "length ws \<le> i \<Longrightarrow> load_int w i s = None"
    using assms by (simp add: load_int_def)
qed

section \<open>Sample runs\<close>

text \<open>
  The specification's example: \<^verbatim>\<open>create(sign=1, word_count=2, allocated_words=4)\<close>, then
  7, 3, 0, 0 written through the reference and read back.
\<close>

lemmas sample_defs = two_grants_def one_grant_def filled_def written_def boot_def stale_def

lemmas eval_defs = sample_defs granted_def shim_defs fresh_def effective_words_def upt_conv_Cons

lemma create_in_two_grants: "grapheme_bigint_external_init 1 2 4 two_grants = Some (1, filled)"
  by (simp add: eval_defs)

lemma run_fills: "run [Store 2 0 7, Store 2 1 3, Store 2 2 0, Store 2 3 0] filled = Some written"
  by (simp add: filled_def written_def store_int_def block_at_def)

lemma run_in_two_grants: "run [] (boot [Grant stale, Grant stale]) = Some two_grants"
  by (simp add: two_grants_def)

lemma read_back_written:
  "grapheme_bigint_get_words 1 written = Some (2, written)"
  "map (\<lambda>i. load_int 2 i written) [0, 1, 2, 3] = [Some 7, Some 3, Some 0, Some 0]"
  "load_int 2 4 written = None"
  by (simp_all add: written_def grapheme_bigint_get_words_def read_bigint_def load_int_def
      block_at_def)

lemma destroy_in_filled:
  "grapheme_free_bigint 1 filled =
     Some \<lparr>heap = [], answers = [], trace = [Malloc 16 1, Malloc 16 2, Free 2, Free 1]\<rparr>"
  by (simp add: filled_def grapheme_free_bigint_def read_bigint_def free_def block_at_def)

section \<open>Requests that fit\<close>

text \<open>
  Where \<^verbatim>\<open>sizeof(int) * n\<close> does not wrap, that is for \<open>0 \<le> n < 2^30\<close>, the buffer
  has the \<open>n\<close> slots asked for, it keeps them for as long as the handle is not destroyed,
  and a slot reads back what was written to it.
\<close>

lemma create_buffer_capacity:
  assumes "grapheme_bigint_external_init sg wc aw s = Some (p, s')" and "p \<noteq> 0"
    and "0 \<le> sint wc" and "sint wc \<le> sint (effective_words wc aw)"
    and "sint (effective_words wc aw) < 2 ^ 30"
  shows "live_handle s' p \<and> int (capacity s' p) = sint (effective_words wc aw) \<and>
         0 \<le> sint (effective_words wc aw) \<and>
         (\<exists>b. read_bigint p s' = Some b \<and> word_count b = wc \<and>
              sint (word_count b) \<le> int (capacity s' p))"
proof -
  from assms(3,4) have nonneg: "0 \<le> sint (effective_words wc aw)" by simp
  from create_establishes_holds [OF assms(1,2)] obtain old where
    h: "holds p \<lparr>sign = sg, word_count = wc, allocated_words = old, words = Suc p\<rparr>
          (unat (4 * effective_words wc aw) div 4) s'" by blast
  from unat_byte_size [OF nonneg assms(5)] nonneg
  have "int (unat (4 * effective_words wc aw) div 4) = sint (effective_words wc aw)" by simp
  with holds_live [OF h] nonneg assms(4) show ?thesis by simp
qed

lemma sentinel_capacity:
  assumes "grapheme_bigint_external_init sg wc (- 1) s = Some (p, s')" and "p \<noteq> 0"
    and "0 \<le> sint wc" and "sint wc < 2 ^ 30"
  shows "live_handle s' p \<and> int (capacity s' p) = sint wc"
proof -
  have e: "effective_words wc (- 1) = wc" by (simp add: effective_words_def)
  from create_establishes_holds [OF assms(1,2)] obtain old where
    h: "holds p \<lparr>sign = sg, word_count = wc, allocated_words = old, words = Suc p\<rparr>
          (unat (4 * wc) div 4) s'" unfolding e by blast
  from unat_byte_size [OF assms(3,4)] assms(3)
  have "int (unat (4 * wc) div 4) = sint wc" by simp
  with holds_live [OF h] show ?thesis by simp
qed

lemma buffer_slots_read_back:
  assumes "run pre (boot cs) = Some s"
    and "grapheme_bigint_external_init sg wc aw s = Some (p, s1)" and "p \<noteq> 0"
    and "0 \<le> sint (effective_words wc aw)" and "sint (effective_words wc aw) < 2 ^ 30"
    and "run post s1 = Some s2" and "Destroy p \<notin> set post"
  shows "\<exists>w. grapheme_bigint_get_words p s2 = Some (w, s2) \<and>
           int (capacity s2 p) = sint (effective_words wc aw) \<and>
           (\<forall>i v. int i < sint (effective_words wc aw) \<longrightarrow>
              (\<exists>s3. store_int w i v s2 = Some s3 \<and> load_int w i s3 = Some v)) \<and>
           (\<forall>i v. sint (effective_words wc aw) \<le> int i \<longrightarrow> store_int w i v s2 = None)"
proof -
  let ?n = "unat (4 * effective_words wc aw) div 4"
  from holds_after_run [OF assms(1,2,3,6,7)] obtain b where
    b: "words b = Suc p" and h: "holds p b ?n s2"
    by blast
  then obtain ws where ws: "block_at s2 (Suc p) = Some (Buffer ws)" "length ws = ?n"
    unfolding holds_def by auto
  from unat_byte_size [OF assms(4,5)] assms(4)
  have n: "int ?n = sint (effective_words wc aw)" by simp
  from holds_live [OF h] b have
    "grapheme_bigint_get_words p s2 = Some (Suc p, s2)" "capacity s2 p = ?n"
    by (simp_all add: grapheme_bigint_get_words_def)
  moreover have "\<exists>s3. store_int (Suc p) i v s2 = Some s3 \<and> load_int (Suc p) i s3 = Some v"
    if "int i < sint (effective_words wc aw)" for i v
    using store_then_load(1) [OF ws(1), of i v] that ws(2) n by simp
  moreover have "store_int (Suc p) i v s2 = None"
    if "sint (effective_words wc aw) \<le> int i" for i v
    using store_then_load(2) [OF ws(1), of i v] that ws(2) n by simp
  ultimately show ?thesis using n by simp
qed

section \<open>The claims\<close>

text \<open>
  C1. For every sign, every \<open>word_count \<ge> 0\<close> and every \<open>allocated_words\<close> that is
  at least \<open>word_count\<close> or the sentinel -1: if the allocator grants both requests,
  \<^verbatim>\<open>grapheme_bigint_external_init\<close> returns a non-null handle on which
  \<^verbatim>\<open>grapheme_bigint_get_word_count\<close> returns the given word count and
  \<^verbatim>\<open>grapheme_bigint_get_sign\<close> the given sign.
\<close>

theorem create_returns_handle:
  assumes "0 \<le> sint wc" and "aw = - 1 \<or> sint wc \<le> sint aw"
    and "granted (answers s)" and "granted (tl (answers s))"
  shows "\<exists>p s'. grapheme_bigint_external_init sg wc aw s = Some (p, s') \<and> p \<noteq> 0 \<and>
           grapheme_bigint_get_word_count p s' = Some (wc, s') \<and>
           grapheme_bigint_get_sign p s' = Some (sg, s')"
proof -
  from assms(3,4) obtain j1 j2 rest where "answers s = Grant j1 # Grant j2 # rest"
    using granted_twice_iff by blast
  then show ?thesis
    by (simp add: create_both grapheme_bigint_get_word_count_def grapheme_bigint_get_sign_def
        read_bigint_def block_at_def)
qed

theorem create_returns_handle_witness:
  "0 \<le> sint (2 :: c_int) \<and> sint (2 :: c_int) \<le> sint (4 :: c_int) \<and>
   granted (answers two_grants) \<and> granted (tl (answers two_grants)) \<and>
   (\<exists>p s'. grapheme_bigint_external_init 1 2 4 two_grants = Some (p, s') \<and> p \<noteq> 0 \<and>
           grapheme_bigint_get_word_count p s' = Some (2, s') \<and>
           grapheme_bigint_get_sign p s' = Some (1, s'))"
  using create_returns_handle [of 2 4 two_grants 1]
  by (simp add: two_grants_def boot_def granted_def)

text \<open>
  C2. Every handle returned by \<^verbatim>\<open>grapheme_bigint_external_init\<close> should have an
  \<open>allocated_words\<close> field that is non-negative, at least \<open>word_count\<close> and equal to
  the length of its buffer. The source declares the field (\<^verbatim>\<open>int allocated_words; // Size
  of words\<close>) and never assigns it: after \<^verbatim>\<open>grapheme_bigint_external_init(1, 2, 4)\<close> the
  buffer has four slots and the field still holds what the memory held before (102 here),
  so the invariant does not hold.
\<close>

theorem allocated_words_field_is_never_set:
  "grapheme_bigint_external_init 1 2 4 two_grants = Some (1, filled) \<and>
   read_bigint 1 filled =
     Some \<lparr>sign = 1, word_count = 2, allocated_words = 102, words = 2\<rparr> \<and>
   live_handle filled 1 \<and> capacity filled 1 = 4 \<and>
   \<not> data_model_invariant filled 1"
  by (simp add: eval_defs data_model_invariant_def capacity_def live_handle_def)

text \<open>
  C3. When the handle record is granted and the word buffer is denied,
  \<^verbatim>\<open>grapheme_bigint_external_init\<close> frees the record it had obtained and then returns
  \<^verbatim>\<open>NULL\<close>: the heap is what it was before the call.
\<close>

theorem create_buffer_failure_releases_handle:
  assumes "granted (answers s)" and "\<not> granted (tl (answers s))"
  shows "\<exists>s' a sz. grapheme_bigint_external_init sg wc aw s = Some (0, s') \<and>
           a \<noteq> 0 \<and> trace s' = trace s @ [Malloc 16 a, Malloc sz 0, Free a] \<and>
           heap s' = heap s"
proof -
  from assms(1) obtain j1 rest where a: "answers s = Grant j1 # rest"
    using granted_iff by blast
  with assms(2) have "\<not> granted rest" by simp
  from create_no_buffer [OF a this, of sg wc aw] show ?thesis by simp
qed

theorem create_buffer_failure_releases_handle_witness:
  "granted (answers one_grant) \<and> \<not> granted (tl (answers one_grant)) \<and>
   (\<exists>s' a sz. grapheme_bigint_external_init 1 2 4 one_grant = Some (0, s') \<and>
           a \<noteq> 0 \<and> trace s' = trace one_grant @ [Malloc 16 a, Malloc sz 0, Free a] \<and>
           heap s' = heap one_grant)"
  using create_buffer_failure_releases_handle [of one_grant 1 2 4]
  by (simp add: one_grant_def boot_def granted_def)

text \<open>
  C4. A handle created with \<open>allocated_words = -1\<close> should own a buffer of exactly
  \<open>word_count\<close> slots. The request \<^verbatim>\<open>sizeof(int) * allocated_words\<close> is computed in
  \<^verbatim>\<open>size_t\<close> and nothing checks that it fits: for \<open>word_count = 2^30 + 1\<close> the
  product wraps to 4 bytes, and \<^verbatim>\<open>grapheme_bigint_external_init\<close> returns a live handle
  whose buffer has one slot.
\<close>

theorem sentinel_request_wraps:
  "grapheme_bigint_external_init 1 1073741825 (- 1) two_grants =
     Some (1, one_slot 1073741825) \<and>
   live_handle (one_slot 1073741825) 1 \<and>
   grapheme_bigint_get_word_count 1 (one_slot 1073741825) =
     Some (1073741825, one_slot 1073741825) \<and>
   sint (1073741825 :: c_int) = 1073741825 \<and>
   capacity (one_slot 1073741825) 1 = 1"
  by (simp add: eval_defs one_slot_def capacity_def live_handle_def
      grapheme_bigint_get_word_count_def)

text \<open>
  C5. On a live handle \<^verbatim>\<open>grapheme_bigint_get_words\<close> should return a reference to a
  buffer of exactly \<open>allocated_words\<close> slots, each of which reads back what was written
  to it. After \<^verbatim>\<open>grapheme_bigint_external_init(1, 0, 1073741825)\<close> the request
  \<^verbatim>\<open>sizeof(int) * allocated_words\<close> has wrapped to 4 bytes: the buffer behind the
  reference has one slot, and a write to slot 1, below \<open>allocated_words\<close>, is out of
  bounds.
\<close>

theorem buffer_request_wraps:
  "grapheme_bigint_external_init 1 0 1073741825 two_grants = Some (1, one_slot 0) \<and>
   live_handle (one_slot 0) 1 \<and>
   grapheme_bigint_get_words 1 (one_slot 0) = Some (2, one_slot 0) \<and>
   capacity (one_slot 0) 1 = 1 \<and>
   (1 :: int) < sint (1073741825 :: c_int) \<and>
   store_int 2 1 7 (one_slot 0) = None \<and>
   load_int 2 1 (one_slot 0) = None"
  by (simp add: eval_defs one_slot_def grapheme_bigint_get_words_def store_int_def load_int_def
      capacity_def live_handle_def)

text \<open>
  C6. The only failure of the interface is a denied allocation. It arises in
  \<^verbatim>\<open>grapheme_bigint_external_init\<close> alone, which always returns, and returns \<^verbatim>\<open>NULL\<close>
  exactly when one of its two requests is denied. On a live handle the three accessors
  return a value and leave the world as it is, and \<^verbatim>\<open>grapheme_free_bigint\<close> completes.
\<close>

theorem allocation_failure_is_the_only_error:
  "(\<exists>p s'. grapheme_bigint_external_init sg wc aw s = Some (p, s') \<and>
       (p = 0 \<longleftrightarrow> \<not> (granted (answers s) \<and> granted (tl (answers s))))) \<and>
   (live_handle s q \<longrightarrow>
      (\<exists>w. grapheme_bigint_get_words q s = Some (w, s)) \<and>
      (\<exists>v. grapheme_bigint_get_sign q s = Some (v, s)) \<and>
      (\<exists>n. grapheme_bigint_get_word_count q s = Some (n, s)) \<and>
      (\<exists>s'. grapheme_free_bigint q s = Some s'))"
proof
  from create_defined [of sg wc aw s] obtain p s' where
    c: "grapheme_bigint_external_init sg wc aw s = Some (p, s')" by blast
  from create_null_iff [OF c] c
  show "\<exists>p s'. grapheme_bigint_external_init sg wc aw s = Some (p, s') \<and>
       (p = 0 \<longleftrightarrow> \<not> (granted (answers s) \<and> granted (tl (answers s))))"
    by auto
next
  show "live_handle s q \<longrightarrow>
      (\<exists>w. grapheme_bigint_get_words q s = Some (w, s)) \<and>
      (\<exists>v. grapheme_bigint_get_sign q s = Some (v, s)) \<and>
      (\<exists>n. grapheme_bigint_get_word_count q s = Some (n, s)) \<and>
      (\<exists>s'. grapheme_free_bigint q s = Some s')"
  proof
    assume "live_handle s q"
    then obtain b ws where b: "block_at s q = Some (Bigint b)"
      and ws: "block_at s (words b) = Some (Buffer ws)"
      by (auto simp: live_handle_iff)
    from b have "read_bigint q s = Some b" by (simp add: read_bigint_iff)
    with destroy_live [OF b ws] show
      "(\<exists>w. grapheme_bigint_get_words q s = Some (w, s)) \<and>
      (\<exists>v. grapheme_bigint_get_sign q s = Some (v, s)) \<and>
      (\<exists>n. grapheme_bigint_get_word_count q s = Some (n, s)) \<and>
      (\<exists>s'. grapheme_free_bigint q s = Some s')"
      by (simp add: grapheme_bigint_get_words_def grapheme_bigint_get_sign_def
          grapheme_bigint_get_word_count_def)
  qed
qed

theorem allocation_failure_is_the_only_error_witness:
  "live_handle filled 1 \<and>
   (\<exists>p s'. grapheme_bigint_external_init 1 2 4 filled = Some (p, s') \<and>
       (p = 0 \<longleftrightarrow> \<not> (granted (answers filled) \<and> granted (tl (answers filled))))) \<and>
   (\<exists>w. grapheme_bigint_get_words 1 filled = Some (w, filled)) \<and>
   (\<exists>v. grapheme_bigint_get_sign 1 filled = Some (v, filled)) \<and>
   (\<exists>n. grapheme_bigint_get_word_count 1 filled = Some (n, filled)) \<and>
   (\<exists>s'. grapheme_free_bigint 1 filled = Some s')"
proof -
  have l: "live_handle filled 1"
    by (simp add: filled_def live_handle_def read_bigint_def block_at_def)
  from allocation_failure_is_the_only_error [of 1 2 4 filled 1] l show ?thesis by blast
qed

text \<open>
  C7. On a live handle \<^verbatim>\<open>grapheme_free_bigint\<close> frees the word buffer and then the
  handle record, in that order and without a test; afterwards neither address names a
  live block, and every other block is as it was.
\<close>

theorem destroy_releases_buffer_then_handle:
  assumes "live_handle s p" and "read_bigint p s = Some b"
  shows "\<exists>s'. grapheme_free_bigint p s = Some s' \<and>
           trace s' = trace s @ [Free (words b), Free p] \<and>
           heap s' = AList.delete p (AList.delete (words b) (heap s)) \<and>
           block_at s' p = None \<and> block_at s' (words b) = None \<and>
           (\<forall>x. x \<noteq> p \<and> x \<noteq> words b \<longrightarrow> block_at s' x = block_at s x)"
proof -
  from assms obtain ws where b: "block_at s p = Some (Bigint b)"
    and ws: "block_at s (words b) = Some (Buffer ws)"
    by (auto simp: live_handle_iff read_bigint_iff)
  from destroy_live [OF b ws] show ?thesis
    by (simp add: block_at_after_destroy)
qed

theorem destroy_releases_buffer_then_handle_witness:
  "live_handle filled 1 \<and>
   read_bigint 1 filled =
     Some \<lparr>sign = 1, word_count = 2, allocated_words = 102, words = 2\<rparr> \<and>
   (\<exists>s'. grapheme_free_bigint 1 filled = Some s' \<and>
      trace s' = trace filled @ [Free 2, Free 1] \<and>
      heap s' = AList.delete 1 (AList.delete 2 (heap filled)) \<and>
      block_at s' 1 = None \<and> block_at s' 2 = None \<and>
      (\<forall>x. x \<noteq> 1 \<and> x \<noteq> 2 \<longrightarrow> block_at s' x = block_at filled x))"
proof -
  have l: "live_handle filled 1"
    by (simp add: filled_def live_handle_def read_bigint_def block_at_def)
  have r: "read_bigint 1 filled =
     Some \<lparr>sign = 1, word_count = 2, allocated_words = 102, words = 2\<rparr>"
    by (simp add: filled_def read_bigint_def block_at_def)
  from destroy_releases_buffer_then_handle [OF l r] l r show ?thesis by simp
qed

text \<open>
  C8. \<^verbatim>\<open>grapheme_bigint_external_init\<close> does not look at what it is given: for every
  sign, every word count and every \<open>allocated_words\<close> other than -1, smaller than the
  word count or not, a call whose two requests are granted returns a handle; the second
  request is for \<open>4 * allocated_words\<close> bytes, the record holds the sign and the word
  count as given, and \<^verbatim>\<open>grapheme_bigint_get_sign\<close> returns that sign.
\<close>

theorem create_does_not_validate:
  assumes "aw \<noteq> - 1" and "granted (answers s)" and "granted (tl (answers s))"
  shows "\<exists>p s' w. grapheme_bigint_external_init sg wc aw s = Some (p, s') \<and> p \<noteq> 0 \<and>
           trace s' = trace s @ [Malloc 16 p, Malloc (4 * aw) w] \<and>
           (\<exists>b. read_bigint p s' = Some b \<and> sign b = sg \<and> word_count b = wc) \<and>
           grapheme_bigint_get_sign p s' = Some (sg, s')"
proof -
  from assms(2,3) obtain j1 j2 rest where "answers s = Grant j1 # Grant j2 # rest"
    using granted_twice_iff by blast
  from create_both [OF this, of sg wc aw] assms(1) show ?thesis
    by (simp add: grapheme_bigint_get_sign_def read_bigint_def block_at_def effective_words_def)
qed

theorem create_does_not_validate_witness:
  "(1 :: c_int) \<noteq> - 1 \<and> granted (answers two_grants) \<and> granted (tl (answers two_grants)) \<and>
   (\<exists>p s' w. grapheme_bigint_external_init 7 5 1 two_grants = Some (p, s') \<and> p \<noteq> 0 \<and>
           trace s' = trace two_grants @ [Malloc 16 p, Malloc (4 * 1) w] \<and>
           (\<exists>b. read_bigint p s' = Some b \<and> sign b = 7 \<and> word_count b = 5) \<and>
           grapheme_bigint_get_sign p s' = Some (7, s'))"
proof -
  have h: "(1 :: c_int) \<noteq> - 1" "granted (answers two_grants)" "granted (tl (answers two_grants))"
    by (simp_all add: two_grants_def boot_def granted_def)
  from create_does_not_validate [OF h, of 7 5] h show ?thesis by blast
qed

text \<open>
  C9. Take any world reached by calls from \<open>boot\<close>, a handle created there, and any
  further calls (creations, accessors, writes into buffers, destructions of other
  handles) that do not destroy it. The accessors leave the world as it is, the handle
  record is what it was right after the creation, and \<^verbatim>\<open>grapheme_bigint_get_sign\<close> and
  \<^verbatim>\<open>grapheme_bigint_get_word_count\<close> still return the sign and the word count given to
  \<^verbatim>\<open>grapheme_bigint_external_init\<close>.
\<close>

theorem sign_and_word_count_are_stable:
  assumes "run pre (boot cs) = Some s"
    and "grapheme_bigint_external_init sg wc aw s = Some (p, s1)" and "p \<noteq> 0"
    and "run post s1 = Some s2" and "Destroy p \<notin> set post"
  shows "grapheme_bigint_get_sign p s2 = Some (sg, s2) \<and>
         grapheme_bigint_get_word_count p s2 = Some (wc, s2) \<and>
         read_bigint p s2 = read_bigint p s1 \<and>
         exec (Get_words p) s2 = Some s2 \<and> exec (Get_sign p) s2 = Some s2 \<and>
         exec (Get_word_count p) s2 = Some s2"
proof -
  from holds_after_run [OF assms] obtain b where
    b: "sign b = sg" "word_count b = wc"
    and h1: "holds p b (unat (4 * effective_words wc aw) div 4) s1"
    and h2: "holds p b (unat (4 * effective_words wc aw) div 4) s2" by blast
  from holds_live(1) [OF h2] holds_live(1) [OF h1] b show ?thesis
    by (simp add: grapheme_bigint_get_sign_def grapheme_bigint_get_word_count_def
        grapheme_bigint_get_words_def)
qed

theorem sign_and_word_count_are_stable_witness:
  "run [] (boot [Grant stale, Grant stale]) = Some two_grants \<and>
   grapheme_bigint_external_init 1 2 4 two_grants = Some (1, filled) \<and> (1 :: addr) \<noteq> 0 \<and>
   run [Store 2 0 7, Store 2 1 3, Store 2 2 0, Store 2 3 0] filled = Some written \<and>
   Destroy 1 \<notin> set [Store 2 0 7, Store 2 1 3, Store 2 2 0, Store 2 3 0] \<and>
   grapheme_bigint_get_sign 1 written = Some (1, written) \<and>
   grapheme_bigint_get_word_count 1 written = Some (2, written) \<and>
   read_bigint 1 written = read_bigint 1 filled \<and>
   exec (Get_words 1) written = Some written \<and> exec (Get_sign 1) written = Some written \<and>
   exec (Get_word_count 1) written = Some written"
proof -
  have n: "(1 :: addr) \<noteq> 0" by simp
  have d: "Destroy 1 \<notin> set [Store 2 0 7, Store 2 1 3, Store 2 2 0, Store 2 3 0]" by simp
  from sign_and_word_count_are_stable [OF run_in_two_grants create_in_two_grants n run_fills d]
    run_in_two_grants create_in_two_grants n run_fills d
  show ?thesis by blast
qed

text \<open>
  C10. With \<open>word_count = 0\<close> and \<open>allocated_words = -1\<close> the buffer request is for 0
  bytes. If that request yields \<^verbatim>\<open>NULL\<close>, \<^verbatim>\<open>grapheme_bigint_external_init\<close> frees the
  handle record and returns \<^verbatim>\<open>NULL\<close>; it returns a handle, of capacity 0, only when the
  request yields a non-null buffer.
\<close>

theorem zero_words_with_sentinel:
  assumes "granted (answers s)"
  shows "\<exists>p s' a. grapheme_bigint_external_init sg 0 (- 1) s = Some (p, s') \<and> a \<noteq> 0 \<and>
           (if granted (tl (answers s))
            then p = a \<and> trace s' = trace s @ [Malloc 16 a, Malloc 0 (Suc a)] \<and>
                 live_handle s' p \<and> capacity s' p = 0
            else p = 0 \<and> trace s' = trace s @ [Malloc 16 a, Malloc 0 0, Free a] \<and>
                 heap s' = heap s)"
proof (cases "granted (tl (answers s))")
  case True
  with assms obtain j1 j2 rest where "answers s = Grant j1 # Grant j2 # rest"
    using granted_twice_iff by blast
  from create_both [OF this, of sg 0 "- 1"] True show ?thesis
    by (simp add: effective_words_def live_handle_def capacity_def read_bigint_def block_at_def)
next
  case False
  from assms obtain j1 rest where a: "answers s = Grant j1 # rest"
    using granted_iff by blast
  with False have "\<not> granted rest" by simp
  from create_no_buffer [OF a this, of sg 0 "- 1"] False show ?thesis
    by (simp add: effective_words_def)
qed

theorem zero_words_with_sentinel_witness:
  "granted (answers one_grant) \<and>
   (\<exists>p s' a. grapheme_bigint_external_init 0 0 (- 1) one_grant = Some (p, s') \<and> a \<noteq> 0 \<and>
           (if granted (tl (answers one_grant))
            then p = a \<and> trace s' = trace one_grant @ [Malloc 16 a, Malloc 0 (Suc a)] \<and>
                 live_handle s' p \<and> capacity s' p = 0
            else p = 0 \<and> trace s' = trace one_grant @ [Malloc 16 a, Malloc 0 0, Free a] \<and>
                 heap s' = heap one_grant))"
proof -
  have h: "granted (answers one_grant)" by (simp add: one_grant_def boot_def granted_def)
  from zero_words_with_sentinel [OF h, of 0] h show ?thesis by blast
qed

end
